theory Spec2Isabelle
  imports Complex_Main
begin

section \<open>The bisection solver of bisection.py\<close>

text \<open>
  The control flow of the source is modelled once and its arithmetic twice.

  In \<open>iteration\<close>, \<open>bisect_loop\<close>, \<open>find_root\<close> and \<open>find_inverse_value\<close> the Python floats are
  real numbers and every operation is exact: this is the data model of the specification,
  and the reading of every property that is stated over exact arithmetic or that does not
  depend on rounding. In \<open>iteration_fl\<close>, \<open>bisect_loop_fl\<close> and \<open>find_root_fl\<close> the result of
  each arithmetic operation of the source is passed through a rounding function; with
  \<open>round_binary64\<close> this is the arithmetic that Python executes, and with the identity it is
  the exact model again (\<open>find_root_fl_exact\<close>). The target function is a pure total
  function; in the rounded model it maps doubles to doubles. The messages printed to the
  console are not modelled.

  \<^verbatim>\<open>time.perf_counter()\<close> is an effect: the clock is the sequence of its readings, and
  the state threaded through the code is the number of readings taken so far, so that the
  \<open>n\<close>-th call of \<^verbatim>\<open>time.perf_counter()\<close> returns \<open>clk n\<close>.
\<close>

type_synonym clock = "nat \<Rightarrow> real"

subsection \<open>Errors\<close>

text \<open>
  The two \<^verbatim>\<open>assert\<close> statements of \<^verbatim>\<open>find_root\<close> and the one of
  \<^verbatim>\<open>find_inverse_value\<close> raise an \<^verbatim>\<open>AssertionError\<close> with their message;
  \<^verbatim>\<open>check_strict_monotonicity\<close> raises a \<^verbatim>\<open>ValueError\<close> whose message ends with the
  interval. The four names of the specification's taxonomy are these four raise sites.
\<close>

datatype error = AssertionError string | ValueError string "real list"

definition InvalidIntervalError :: error where
  "InvalidIntervalError =
     AssertionError ''The interval must be defined as `[a, b]` with `a < b`.''"

definition InvalidToleranceError :: error where
  "InvalidToleranceError = AssertionError ''The tolerance must be a positive number.''"

definition NonMonotonicError :: "real \<Rightarrow> real \<Rightarrow> error" where
  "NonMonotonicError a b =
     ValueError ''Function `f` is not strictly monotonic over the interval '' [a, b]"

definition OutOfRangeError :: error where
  "OutOfRangeError = AssertionError ''The value `y` must be in the interval `[a, b]`.''"

subsection \<open>The example function and the monotonicity checker\<close>

definition function_py :: "real \<Rightarrow> real" where
  "function_py x = (x - 2) ^ 3"

definition check_strict_monotonicity :: "(real \<Rightarrow> real) \<Rightarrow> real \<Rightarrow> real \<Rightarrow> error + bool" where
  "check_strict_monotonicity f a b =
     (if f a > f b then Inr False
      else if f a < f b then Inr True
      else Inl (NonMonotonicError a b))"

subsection \<open>One pass through the loop body\<close>

text \<open>
  The function of which a root is searched: \<open>f\<close> itself when \<open>y = 0\<close>, and \<open>y - f\<close>
  otherwise (lines 104 to 109).
\<close>

definition effective :: "(real \<Rightarrow> real) \<Rightarrow> real \<Rightarrow> real \<Rightarrow> real" where
  "effective f y c = (if y = 0 then f c else y - f c)"

text \<open>
  The bracket update of lines 117 to 126, from the monotonicity flag and the value of the
  effective function at the midpoint \<open>c\<close>.
\<close>

definition update_bracket :: "bool \<Rightarrow> real \<Rightarrow> real \<Rightarrow> real \<Rightarrow> real \<Rightarrow> real \<times> real" where
  "update_bracket is_increasing func_midpoint a b c =
     (if is_increasing then
        (if func_midpoint > 0 then (a, c) else (c, b))
      else
        (if func_midpoint > 0 then (c, b) else (a, c)))"

text \<open>
  The loop has two \<^verbatim>\<open>return\<close> statements: the one of line 115 (convergence) and the one
  of line 136 (time limit). \<open>exit_path\<close> records which of them was executed; the Python
  tuple does not contain it.
\<close>

datatype exit_path = Converged | TimedOut

type_synonym result = "real \<times> real \<times> real"

datatype outcome = Return exit_path result nat | Continue real real nat

text \<open>
  One iteration, started with the bracket \<open>[a, b]\<close> after \<open>n\<close> clock readings. On
  convergence the clock is read once, for the elapsed time. Otherwise it is read for the
  test of line 129 and, when the limit is exceeded, once more for the elapsed time that is
  returned.
\<close>

definition iteration ::
  "(real \<Rightarrow> real) \<Rightarrow> clock \<Rightarrow> real \<Rightarrow> bool \<Rightarrow> real \<Rightarrow> real \<Rightarrow> real \<Rightarrow>
     real \<Rightarrow> real \<Rightarrow> nat \<Rightarrow> outcome" where
  "iteration f clk tolerance is_increasing y run_time_limit start_time a b n =
     (let c = (a + b) / 2;
          func_midpoint = effective f y c
      in if \<bar>func_midpoint\<bar> \<le> tolerance then
           Return Converged (c, clk n - start_time, func_midpoint) (n + 1)
         else
           (case update_bracket is_increasing func_midpoint a b c of (a', b') \<Rightarrow>
              if clk n - start_time > run_time_limit then
                Return TimedOut (c, clk (n + 1) - start_time, func_midpoint) (n + 2)
              else Continue a' b' (n + 1)))"

subsection \<open>The loop and the two entry points\<close>

text \<open>
  The \<^verbatim>\<open>while\<close> loop has no bound of its own: it is a partial function, and \<open>None\<close>
  is a run that never returns.
\<close>

partial_function (option) bisect_loop ::
  "(real \<Rightarrow> real) \<Rightarrow> clock \<Rightarrow> real \<Rightarrow> bool \<Rightarrow> real \<Rightarrow> real \<Rightarrow> real \<Rightarrow>
     real \<Rightarrow> real \<Rightarrow> nat \<Rightarrow> (exit_path \<times> result \<times> nat) option" where
  "bisect_loop f clk tolerance is_increasing y run_time_limit start_time a b n =
     (case iteration f clk tolerance is_increasing y run_time_limit start_time a b n of
        Return ex r m \<Rightarrow> Some (ex, r, m)
      | Continue a' b' m \<Rightarrow>
          bisect_loop f clk tolerance is_increasing y run_time_limit start_time a' b' m)"

text \<open>
  \<open>find_root_traced\<close> is \<^verbatim>\<open>find_root\<close> with the exit path kept beside the returned
  tuple; \<open>find_root\<close> forgets it. The argument \<open>is_increasing\<close> is overwritten at line 92
  before it is read. The result also holds the number of clock readings taken, for the
  caller's next reading.
\<close>

definition find_root_traced ::
  "(real \<Rightarrow> real) \<Rightarrow> real \<Rightarrow> real \<Rightarrow> real \<Rightarrow> bool \<Rightarrow> real \<Rightarrow> real \<Rightarrow> clock \<Rightarrow> nat \<Rightarrow>
     (error + exit_path \<times> result \<times> nat) option" where
  "find_root_traced f a b tolerance is_increasing y run_time_limit clk n =
     (let start_time = clk n in
      if \<not> a < b then Some (Inl InvalidIntervalError)
      else if \<not> tolerance > 0 then Some (Inl InvalidToleranceError)
      else
        (case check_strict_monotonicity f a b of
           Inl e \<Rightarrow> Some (Inl e)
         | Inr is_increasing' \<Rightarrow>
             map_option Inr
               (bisect_loop f clk tolerance
                  (if y \<noteq> 0 then \<not> is_increasing' else is_increasing')
                  y run_time_limit start_time a b (n + 1))))"

definition find_root ::
  "(real \<Rightarrow> real) \<Rightarrow> real \<Rightarrow> real \<Rightarrow> real \<Rightarrow> bool \<Rightarrow> real \<Rightarrow> real \<Rightarrow> clock \<Rightarrow> nat \<Rightarrow>
     (error + result \<times> nat) option" where
  "find_root f a b tolerance is_increasing y run_time_limit clk n =
     map_option (map_sum id snd)
       (find_root_traced f a b tolerance is_increasing y run_time_limit clk n)"

text \<open>
  \<^verbatim>\<open>find_inverse_value\<close> reads the clock, asserts \<open>a \<le> y \<le> b\<close>, calls \<^verbatim>\<open>find_root\<close>
  with a limit of 180 seconds, and reads the clock again for its own elapsed time.
\<close>

definition find_inverse_value ::
  "(real \<Rightarrow> real) \<Rightarrow> real \<Rightarrow> real \<Rightarrow> real \<Rightarrow> real \<Rightarrow> bool \<Rightarrow> clock \<Rightarrow> nat \<Rightarrow>
     (error + (real \<times> real) \<times> nat) option" where
  "find_inverse_value f y a b tolerance is_increasing clk n =
     (let start_time = clk n in
      if \<not> (a \<le> y \<and> y \<le> b) then Some (Inl OutOfRangeError)
      else
        (case find_root f a b tolerance is_increasing y 180 clk (n + 1) of
           None \<Rightarrow> None
         | Some (Inl e) \<Rightarrow> Some (Inl e)
         | Some (Inr ((inverse_value, _, _), m)) \<Rightarrow>
             Some (Inr ((inverse_value, clk m - start_time), m + 1))))"

subsection \<open>Runs of the loop that do not return\<close>

text \<open>
  \<open>iterations \<dots> k a b n\<close> is the state of the loop (the bracket and the number of clock
  readings) after \<open>k\<close> passes through its body that neither converged nor ran out of
  time, and \<open>None\<close> when one of these \<open>k\<close> passes returned.
\<close>

fun iterations ::
  "(real \<Rightarrow> real) \<Rightarrow> clock \<Rightarrow> real \<Rightarrow> bool \<Rightarrow> real \<Rightarrow> real \<Rightarrow> real \<Rightarrow>
     nat \<Rightarrow> real \<Rightarrow> real \<Rightarrow> nat \<Rightarrow> (real \<times> real \<times> nat) option" where
  "iterations f clk tolerance is_increasing y run_time_limit start_time 0 a b n = Some (a, b, n)"
| "iterations f clk tolerance is_increasing y run_time_limit start_time (Suc k) a b n =
     (case iteration f clk tolerance is_increasing y run_time_limit start_time a b n of
        Return ex r m \<Rightarrow> None
      | Continue a' b' m \<Rightarrow>
          iterations f clk tolerance is_increasing y run_time_limit start_time k a' b' m)"

text \<open>
  The monotonicity flag with which \<^verbatim>\<open>find_root\<close> enters its loop (lines 92 to 97), when
  the endpoint values differ.
\<close>

definition loop_flag :: "(real \<Rightarrow> real) \<Rightarrow> real \<Rightarrow> real \<Rightarrow> real \<Rightarrow> bool" where
  "loop_flag f a b y = (if y \<noteq> 0 then \<not> f a < f b else f a < f b)"

subsection \<open>The same code with rounded arithmetic\<close>

text \<open>
  A finite double is the real number it denotes. \<open>round_binary64 x\<close> is the double nearest
  to \<open>x\<close>, ties going to the even significand: 53 significant bits, and a smallest exponent
  of \<open>- 1022\<close> below which the spacing stays \<open>2 ^ (- 1074)\<close>. The exponent is not bounded above:
  results beyond the largest double, which are infinite in Python, are outside this model.
\<close>

definition pow2 :: "int \<Rightarrow> real" where
  "pow2 k = (if 0 \<le> k then 2 ^ nat k else 1 / 2 ^ nat (- k))"

definition round_half_even :: "real \<Rightarrow> int" where
  "round_half_even x =
     (let n = \<lfloor>x\<rfloor> in
      if x - of_int n < 1 / 2 then n
      else if 1 / 2 < x - of_int n then n + 1
      else if even n then n else n + 1)"

definition round_binary64 :: "real \<Rightarrow> real" where
  "round_binary64 x =
     (if x = 0 then 0
      else let e = max \<lfloor>log 2 \<bar>x\<bar>\<rfloor> (- 1022);
               u = pow2 (e - 52)
           in of_int (round_half_even (x / u)) * u)"

text \<open>
  The loop body, the loop and \<^verbatim>\<open>find_root\<close> with \<open>rnd\<close> applied to the result of each
  operation of the source: the sum and the halving of line 102, the subtraction of line
  109 and the subtractions of clock readings of lines 115, 129 and 136. Comparisons and
  \<^verbatim>\<open>abs\<close> are exact in binary64.
\<close>

definition iteration_fl ::
  "(real \<Rightarrow> real) \<Rightarrow> (real \<Rightarrow> real) \<Rightarrow> clock \<Rightarrow> real \<Rightarrow> bool \<Rightarrow> real \<Rightarrow> real \<Rightarrow> real \<Rightarrow>
     real \<Rightarrow> real \<Rightarrow> nat \<Rightarrow> outcome" where
  "iteration_fl rnd f clk tolerance is_increasing y run_time_limit start_time a b n =
     (let c = rnd (rnd (a + b) / 2);
          func_midpoint = (if y = 0 then f c else rnd (y - f c))
      in if \<bar>func_midpoint\<bar> \<le> tolerance then
           Return Converged (c, rnd (clk n - start_time), func_midpoint) (n + 1)
         else
           (case update_bracket is_increasing func_midpoint a b c of (a', b') \<Rightarrow>
              if rnd (clk n - start_time) > run_time_limit then
                Return TimedOut (c, rnd (clk (n + 1) - start_time), func_midpoint) (n + 2)
              else Continue a' b' (n + 1)))"

partial_function (option) bisect_loop_fl ::
  "(real \<Rightarrow> real) \<Rightarrow> (real \<Rightarrow> real) \<Rightarrow> clock \<Rightarrow> real \<Rightarrow> bool \<Rightarrow> real \<Rightarrow> real \<Rightarrow> real \<Rightarrow>
     real \<Rightarrow> real \<Rightarrow> nat \<Rightarrow> (exit_path \<times> result \<times> nat) option" where
  "bisect_loop_fl rnd f clk tolerance is_increasing y run_time_limit start_time a b n =
     (case iteration_fl rnd f clk tolerance is_increasing y run_time_limit start_time a b n of
        Return ex r m \<Rightarrow> Some (ex, r, m)
      | Continue a' b' m \<Rightarrow>
          bisect_loop_fl rnd f clk tolerance is_increasing y run_time_limit start_time a' b' m)"

definition find_root_fl_traced ::
  "(real \<Rightarrow> real) \<Rightarrow> (real \<Rightarrow> real) \<Rightarrow> real \<Rightarrow> real \<Rightarrow> real \<Rightarrow> bool \<Rightarrow> real \<Rightarrow> real \<Rightarrow>
     clock \<Rightarrow> nat \<Rightarrow> (error + exit_path \<times> result \<times> nat) option" where
  "find_root_fl_traced rnd f a b tolerance is_increasing y run_time_limit clk n =
     (let start_time = clk n in
      if \<not> a < b then Some (Inl InvalidIntervalError)
      else if \<not> tolerance > 0 then Some (Inl InvalidToleranceError)
      else
        (case check_strict_monotonicity f a b of
           Inl e \<Rightarrow> Some (Inl e)
         | Inr is_increasing' \<Rightarrow>
             map_option Inr
               (bisect_loop_fl rnd f clk tolerance
                  (if y \<noteq> 0 then \<not> is_increasing' else is_increasing')
                  y run_time_limit start_time a b (n + 1))))"

definition find_root_fl ::
  "(real \<Rightarrow> real) \<Rightarrow> (real \<Rightarrow> real) \<Rightarrow> real \<Rightarrow> real \<Rightarrow> real \<Rightarrow> bool \<Rightarrow> real \<Rightarrow> real \<Rightarrow>
     clock \<Rightarrow> nat \<Rightarrow> (error + result \<times> nat) option" where
  "find_root_fl rnd f a b tolerance is_increasing y run_time_limit clk n =
     map_option (map_sum id snd)
       (find_root_fl_traced rnd f a b tolerance is_increasing y run_time_limit clk n)"

fun iterations_fl ::
  "(real \<Rightarrow> real) \<Rightarrow> (real \<Rightarrow> real) \<Rightarrow> clock \<Rightarrow> real \<Rightarrow> bool \<Rightarrow> real \<Rightarrow> real \<Rightarrow> real \<Rightarrow>
     nat \<Rightarrow> real \<Rightarrow> real \<Rightarrow> nat \<Rightarrow> (real \<times> real \<times> nat) option" where
  "iterations_fl rnd f clk tolerance is_increasing y run_time_limit start_time 0 a b n =
     Some (a, b, n)"
| "iterations_fl rnd f clk tolerance is_increasing y run_time_limit start_time (Suc k) a b n =
     (case iteration_fl rnd f clk tolerance is_increasing y run_time_limit start_time a b n of
        Return ex r m \<Rightarrow> None
      | Continue a' b' m \<Rightarrow>
          iterations_fl rnd f clk tolerance is_increasing y run_time_limit start_time k a' b' m)"

subsection \<open>Vocabulary of the properties\<close>





text \<open>
  The default time limit of \<^verbatim>\<open>find_root\<close> (line 63), and for the examples three clocks
  (one that stands still, as for a limit that is never reached, one of a second and one of a
  millisecond per reading) and a strictly increasing function with a jump at its root.
\<close>

definition default_run_time_limit :: real where
  "default_run_time_limit = 60"

definition frozen_clock :: clock where
  "frozen_clock n = 0"

definition ticking_clock :: clock where
  "ticking_clock n = real n"

definition fast_clock :: clock where
  "fast_clock n = real n / 1000"



text \<open>
  Inputs of runs in binary64: the doubles written \<^verbatim>\<open>0.1\<close>, \<^verbatim>\<open>0.3\<close> and \<^verbatim>\<open>0.7\<close> in Python,
  the target function \<^verbatim>\<open>lambda x: x - 0.3\<close>, the double that follows \<^verbatim>\<open>1.0\<close>, and the target
  function \<^verbatim>\<open>lambda x: (x - 1.0) - (1.0000000000000002 - x)\<close>, as the real function it stands
  for and as Python computes it.
\<close>

definition tenth64 :: real where
  "tenth64 = 3602879701896397 / 2 ^ 55"

definition three_tenths64 :: real where
  "three_tenths64 = 5404319552844595 / 2 ^ 54"

definition seven_tenths64 :: real where
  "seven_tenths64 = 3152519739159347 / 2 ^ 52"

definition shifted64 :: "real \<Rightarrow> real" where
  "shifted64 x = round_binary64 (x - three_tenths64)"

definition next_after_one :: real where
  "next_after_one = 1 + 1 / 2 ^ 52"


definition straddle64 :: "real \<Rightarrow> real" where
  "straddle64 x =
     round_binary64 (round_binary64 (x - 1) - round_binary64 (next_after_one - x))"

section \<open>Properties of the loop\<close>

lemma iteration_cases:
  obtains (conv) "\<bar>effective f y ((a + b) / 2)\<bar> \<le> tol"
      "iteration f clk tol inc y rtl st a b n =
         Return Converged ((a + b) / 2, clk n - st, effective f y ((a + b) / 2)) (n + 1)"
  | (timeout) "\<not> \<bar>effective f y ((a + b) / 2)\<bar> \<le> tol" "clk n - st > rtl"
      "iteration f clk tol inc y rtl st a b n =
         Return TimedOut ((a + b) / 2, clk (n + 1) - st, effective f y ((a + b) / 2)) (n + 2)"
  | (cont) "\<not> \<bar>effective f y ((a + b) / 2)\<bar> \<le> tol" "\<not> clk n - st > rtl"
      "iteration f clk tol inc y rtl st a b n =
         Continue (fst (update_bracket inc (effective f y ((a + b) / 2)) a b ((a + b) / 2)))
           (snd (update_bracket inc (effective f y ((a + b) / 2)) a b ((a + b) / 2))) (n + 1)"
  by (cases "\<bar>effective f y ((a + b) / 2)\<bar> \<le> tol"; cases "clk n - st > rtl")
     (auto simp: iteration_def Let_def split: prod.splits)

lemma iteration_Continue:
  assumes "iteration f clk tol inc y rtl st a b n = Continue a' b' m"
  shows "m = n + 1" "(a' = a \<and> b' = (a + b) / 2) \<or> (a' = (a + b) / 2 \<and> b' = b)"
    "\<not> \<bar>effective f y ((a + b) / 2)\<bar> \<le> tol" "\<not> clk n - st > rtl"
    "(a', b') = update_bracket inc (effective f y ((a + b) / 2)) a b ((a + b) / 2)"
  using assms
  by (auto simp: iteration_def Let_def update_bracket_def split: prod.splits if_splits)

lemma iteration_Return:
  assumes "iteration f clk tol inc y rtl st a b n = Return ex (x, e, v) m"
  shows "x = (a + b) / 2" "v = effective f y x" "\<bar>v\<bar> \<le> tol \<longleftrightarrow> ex = Converged"
    "ex = TimedOut \<Longrightarrow> rtl < clk n - st \<and> e = clk (n + 1) - st \<and> m = n + 2"
    "ex = Converged \<Longrightarrow> e = clk n - st \<and> m = n + 1"
  using assms
  by (auto simp: iteration_def Let_def split: prod.splits if_splits)

lemma iterations_loop:
  "iterations f clk tol inc y rtl st k a b n = Some (a', b', n') \<Longrightarrow>
   bisect_loop f clk tol inc y rtl st a b n = bisect_loop f clk tol inc y rtl st a' b' n'"
proof (induction k arbitrary: a b n)
  case 0
  then show ?case by simp
next
  case (Suc k)
  then show ?case
    by (subst bisect_loop.simps) (auto split: outcome.splits)
qed

lemma loop_iterations_aux:
  assumes "bisect_loop f clk tol inc y rtl st a b n = Some res"
  shows "\<exists>k a' b' n'. iterations f clk tol inc y rtl st k a b n = Some (a', b', n') \<and>
      (case res of (ex, r, m) \<Rightarrow> iteration f clk tol inc y rtl st a' b' n' = Return ex r m)"
proof (rule bisect_loop.raw_induct[where P = "\<lambda>f clk tol inc y rtl st a b n res.
      \<exists>k a' b' n'. iterations f clk tol inc y rtl st k a b n = Some (a', b', n') \<and>
      (case res of (ex, r, m) \<Rightarrow> iteration f clk tol inc y rtl st a' b' n' = Return ex r m)",
      OF _ assms], goal_cases)
  case (1 loop f clk tol inc y rtl st a b n res)
  show ?case
  proof (cases "iteration f clk tol inc y rtl st a b n")
    case (Return ex' r' m')
    with 1(2) have "res = (ex', r', m')" by simp
    with Return have "iterations f clk tol inc y rtl st 0 a b n = Some (a, b, n) \<and>
      (case res of (ex, r, m) \<Rightarrow> iteration f clk tol inc y rtl st a b n = Return ex r m)"
      by simp
    then show ?thesis by blast
  next
    case (Continue a1 b1 n1)
    with 1(2) have "loop f clk tol inc y rtl st a1 b1 n1 = Some res" by simp
    from 1(1)[OF this] obtain k a' b' n' where
      "iterations f clk tol inc y rtl st k a1 b1 n1 = Some (a', b', n')"
      "(case res of (ex, r, m) \<Rightarrow> iteration f clk tol inc y rtl st a' b' n' = Return ex r m)"
      by blast
    with Continue have "iterations f clk tol inc y rtl st (Suc k) a b n = Some (a', b', n') \<and>
      (case res of (ex, r, m) \<Rightarrow> iteration f clk tol inc y rtl st a' b' n' = Return ex r m)"
      by simp
    then show ?thesis by blast
  qed
qed

lemma loop_iterations:
  "bisect_loop f clk tol inc y rtl st a b n = Some (ex, r, m) \<Longrightarrow>
   \<exists>k a' b' n'. iterations f clk tol inc y rtl st k a b n = Some (a', b', n') \<and>
      iteration f clk tol inc y rtl st a' b' n' = Return ex r m"
  using loop_iterations_aux[of f clk tol inc y rtl st a b n "(ex, r, m)"] by simp

lemma iterations_bracket:
  "iterations f clk tol inc y rtl st k a b n = Some (a', b', n') \<Longrightarrow> a < b \<Longrightarrow>
   a \<le> a' \<and> a' < b' \<and> b' \<le> b \<and> n' = n + k"
proof (induction k arbitrary: a b n)
  case 0
  then show ?case by simp
next
  case (Suc k)
  from Suc.prems(1) obtain a1 b1 n1 where
    it: "iteration f clk tol inc y rtl st a b n = Continue a1 b1 n1"
    and rest: "iterations f clk tol inc y rtl st k a1 b1 n1 = Some (a', b', n')"
    by (auto split: outcome.splits)
  from iteration_Continue(1,2)[OF it] Suc.prems(2)
  have s: "n1 = n + 1" "a \<le> a1" "a1 < b1" "b1 \<le> b"
    by (auto simp: field_simps)
  from Suc.IH[OF rest s(3)] s show ?case by auto
qed

lemma iterations_width:
  "iterations f clk tol inc y rtl st k a b n = Some (a', b', n') \<Longrightarrow>
   b' - a' = (b - a) / 2 ^ k"
proof (induction k arbitrary: a b n)
  case 0
  then show ?case by simp
next
  case (Suc k)
  from Suc.prems(1) obtain a1 b1 n1 where
    it: "iteration f clk tol inc y rtl st a b n = Continue a1 b1 n1"
    and rest: "iterations f clk tol inc y rtl st k a1 b1 n1 = Some (a', b', n')"
    by (auto split: outcome.splits)
  from iteration_Continue(2)[OF it] have "b1 - a1 = (b - a) / 2"
    by (auto simp: field_simps)
  with Suc.IH[OF rest] show ?case by simp
qed

lemma iterations_Suc_last:
  "iterations f clk tol inc y rtl st (Suc k) a b n =
     (case iterations f clk tol inc y rtl st k a b n of
        None \<Rightarrow> None
      | Some (a', b', n') \<Rightarrow> iterations f clk tol inc y rtl st (Suc 0) a' b' n')"
proof (induction k arbitrary: a b n)
  case 0
  then show ?case by simp
next
  case (Suc k)
  show ?case
  proof (cases "iteration f clk tol inc y rtl st a b n")
    case (Return ex r m)
    then show ?thesis by simp
  next
    case (Continue a1 b1 n1)
    have "iterations f clk tol inc y rtl st (Suc (Suc k)) a b n =
        iterations f clk tol inc y rtl st (Suc k) a1 b1 n1"
      using Continue by simp
    also have "\<dots> = (case iterations f clk tol inc y rtl st k a1 b1 n1 of
        None \<Rightarrow> None
      | Some (a', b', n') \<Rightarrow> iterations f clk tol inc y rtl st (Suc 0) a' b' n')"
      by (rule Suc.IH)
    also have "iterations f clk tol inc y rtl st k a1 b1 n1 =
        iterations f clk tol inc y rtl st (Suc k) a b n"
      using Continue by simp
    finally show ?thesis .
  qed
qed

lemma check_strict_monotonicity_ok:
  "f a \<noteq> f b \<Longrightarrow> check_strict_monotonicity f a b = Inr (f a < f b)"
  by (auto simp: check_strict_monotonicity_def)

lemma find_root_traced_loop:
  assumes "a < b" "0 < tol" "f a \<noteq> f b"
  shows "find_root_traced f a b tol inc y rtl clk n =
     map_option Inr (bisect_loop f clk tol (loop_flag f a b y) y rtl (clk n) a b (n + 1))"
  using assms
  by (simp add: find_root_traced_def check_strict_monotonicity_ok loop_flag_def)

lemma find_root_traced_Inr:
  assumes "find_root_traced f a b tol inc y rtl clk n = Some (Inr res)"
  shows "a < b \<and> 0 < tol \<and> f a \<noteq> f b \<and>
     bisect_loop f clk tol (loop_flag f a b y) y rtl (clk n) a b (n + 1) = Some res"
  using assms
  by (auto simp: find_root_traced_def check_strict_monotonicity_def loop_flag_def Let_def
      split: if_splits)

lemma find_root_Inr:
  "find_root f a b tol inc y rtl clk n = Some (Inr (r, m)) \<longleftrightarrow>
     (\<exists>ex. find_root_traced f a b tol inc y rtl clk n = Some (Inr (ex, r, m)))"
  by (cases "find_root_traced f a b tol inc y rtl clk n")
     (auto simp: find_root_def map_sum_def split: sum.splits)


lemma two: "(2::nat) = Suc (Suc 0)"
  by simp

lemma find_root_not_OutOfRange:
  "find_root f a b tol inc y rtl clk n \<noteq> Some (Inl OutOfRangeError)"
  by (cases "bisect_loop f clk tol (loop_flag f a b y) y rtl (clk n) a b (n + 1)")
     (auto simp: find_root_def find_root_traced_def check_strict_monotonicity_def Let_def
       loop_flag_def InvalidIntervalError_def InvalidToleranceError_def
       NonMonotonicError_def OutOfRangeError_def)





subsection \<open>Convergence for a continuous strictly monotonic function\<close>








subsection \<open>A run that never returns\<close>





subsection \<open>The convergence exit does not depend on the clock\<close>

lemma converged_estimate_unique_aux:
  assumes "bisect_loop f clk tol inc y rtl st a b n = Some res"
  shows "\<forall>clk' rtl' st' n' x e v m x' e' v' m'.
      res = (Converged, (x, e, v), m) \<longrightarrow>
      bisect_loop f clk' tol inc y rtl' st' a b n' = Some (Converged, (x', e', v'), m') \<longrightarrow>
      x = x' \<and> v = v'"
proof (rule bisect_loop.raw_induct[where P = "\<lambda>f clk tol inc y rtl st a b n res.
      \<forall>clk' rtl' st' n' x e v m x' e' v' m'.
      res = (Converged, (x, e, v), m) \<longrightarrow>
      bisect_loop f clk' tol inc y rtl' st' a b n' = Some (Converged, (x', e', v'), m') \<longrightarrow>
      x = x' \<and> v = v'", OF _ assms], goal_cases)
  case (1 loop f clk tol inc y rtl st a b n res)
  show ?case
  proof (intro allI impI)
    fix clk' rtl' st' n' x e v m x' e' v' m'
    assume res: "res = (Converged, (x, e, v), m)"
      and other: "bisect_loop f clk' tol inc y rtl' st' a b n' = Some (Converged, (x', e', v'), m')"
    define c where "c = (a + b) / 2"
    define w where "w = effective f y c"
    obtain a1 b1 where upd: "update_bracket inc w a b c = (a1, b1)"
      by (cases "update_bracket inc w a b c") auto
    have it: "iteration f clk tol inc y rtl st a b n =
        (if \<bar>w\<bar> \<le> tol then Return Converged (c, clk n - st, w) (n + 1)
         else if clk n - st > rtl then Return TimedOut (c, clk (n + 1) - st, w) (n + 2)
         else Continue a1 b1 (n + 1))" for clk rtl st n
      using upd by (simp add: iteration_def Let_def c_def w_def)
    from other have other': "(case iteration f clk' tol inc y rtl' st' a b n' of
          Return ex r m \<Rightarrow> Some (ex, r, m)
        | Continue a' b' m \<Rightarrow> bisect_loop f clk' tol inc y rtl' st' a' b' m) =
        Some (Converged, (x', e', v'), m')"
      by (subst (asm) bisect_loop.simps)
    show "x = x' \<and> v = v'"
    proof (cases "\<bar>w\<bar> \<le> tol")
      case True
      with 1(2) res it have "x = c \<and> v = w" by simp
      moreover from other' True it have "x' = c \<and> v' = w" by simp
      ultimately show ?thesis by simp
    next
      case False
      with 1(2) res it have run: "loop f clk tol inc y rtl st a1 b1 (n + 1) = Some res"
        by (simp split: if_splits)
      from False other' it
      have "bisect_loop f clk' tol inc y rtl' st' a1 b1 (n' + 1) = Some (Converged, (x', e', v'), m')"
        by (simp split: if_splits)
      with 1(1)[OF run] res show ?thesis by blast
    qed
  qed
qed

subsection \<open>Rounded arithmetic\<close>

lemma pow2_powr: "pow2 k = 2 powr (of_int k)"
  by (simp add: pow2_def powr_int)

lemma round_binary64_normal:
  assumes "pow2 e \<le> \<bar>x\<bar>" and "\<bar>x\<bar> < pow2 (e + 1)" and "- 1022 \<le> e"
  shows "round_binary64 x = of_int (round_half_even (x / pow2 (e - 52))) * pow2 (e - 52)"
proof -
  have pos: "0 < pow2 e" by (simp add: pow2_def)
  with assms(1) have nz: "x \<noteq> 0" by auto
  then have "\<lfloor>log 2 \<bar>x\<bar>\<rfloor> = e"
    using assms(1,2) by (subst floor_log_eq_powr_iff) (auto simp: pow2_powr)
  with nz assms(3) show ?thesis by (simp add: round_binary64_def Let_def max_def)
qed

text \<open>Without rounding, the rounded model is the exact one.\<close>

lemma iteration_fl_exact: "iteration_fl (\<lambda>x. x) = iteration"
  by (intro ext) (simp add: iteration_fl_def iteration_def effective_def)

lemma exact_loop_1:
  assumes "bisect_loop_fl rnd f clk tol inc y rtl st a b n = Some res"
  shows "rnd = (\<lambda>x. x) \<longrightarrow> bisect_loop f clk tol inc y rtl st a b n = Some res"
proof (rule bisect_loop_fl.raw_induct[where P = "\<lambda>rnd f clk tol inc y rtl st a b n res.
      rnd = (\<lambda>x. x) \<longrightarrow> bisect_loop f clk tol inc y rtl st a b n = Some res", OF _ assms],
    goal_cases)
  case (1 loop rnd f clk tol inc y rtl st a b n res)
  show ?case
  proof (intro impI)
    assume id: "rnd = (\<lambda>x. x)"
    show "bisect_loop f clk tol inc y rtl st a b n = Some res"
    proof (cases "iteration f clk tol inc y rtl st a b n")
      case (Return ex r m)
      with 1(2) id show ?thesis
        by (subst bisect_loop.simps) (simp add: iteration_fl_exact)
    next
      case (Continue a' b' m)
      with 1(2) id have "loop rnd f clk tol inc y rtl st a' b' m = Some res"
        by (simp add: iteration_fl_exact)
      from 1(1)[OF this] id Continue show ?thesis
        by (subst bisect_loop.simps) simp
    qed
  qed
qed

lemma exact_loop_2:
  assumes "bisect_loop f clk tol inc y rtl st a b n = Some res"
  shows "bisect_loop_fl (\<lambda>x. x) f clk tol inc y rtl st a b n = Some res"
proof (rule bisect_loop.raw_induct[where P = "\<lambda>f clk tol inc y rtl st a b n res.
      bisect_loop_fl (\<lambda>x. x) f clk tol inc y rtl st a b n = Some res", OF _ assms],
    goal_cases)
  case (1 loop f clk tol inc y rtl st a b n res)
  show ?case
  proof (cases "iteration f clk tol inc y rtl st a b n")
    case (Return ex r m)
    with 1(2) show ?thesis
      by (subst bisect_loop_fl.simps) (simp add: iteration_fl_exact)
  next
    case (Continue a' b' m)
    with 1(2) have "loop f clk tol inc y rtl st a' b' m = Some res" by simp
    from 1(1)[OF this] Continue show ?thesis
      by (subst bisect_loop_fl.simps) (simp add: iteration_fl_exact)
  qed
qed

lemma bisect_loop_fl_exact:
  "bisect_loop_fl (\<lambda>x. x) f clk tol inc y rtl st a b n = bisect_loop f clk tol inc y rtl st a b n"
proof (cases "bisect_loop f clk tol inc y rtl st a b n")
  case None
  show ?thesis
  proof (cases "bisect_loop_fl (\<lambda>x. x) f clk tol inc y rtl st a b n")
    case None
    with \<open>bisect_loop f clk tol inc y rtl st a b n = None\<close> show ?thesis by simp
  next
    case (Some res)
    from exact_loop_1[OF this] None show ?thesis by simp
  qed
next
  case (Some res)
  from exact_loop_2[OF this] Some show ?thesis by simp
qed

lemma find_root_fl_exact:
  "find_root_fl (\<lambda>x. x) f a b tol inc y rtl clk n = find_root f a b tol inc y rtl clk n"
  by (simp add: find_root_fl_def find_root_def find_root_fl_traced_def find_root_traced_def
      bisect_loop_fl_exact split: sum.splits)

lemma iterations_fl_exact:
  "iterations_fl (\<lambda>x. x) f clk tol inc y rtl st k a b n = iterations f clk tol inc y rtl st k a b n"
  by (induction k arbitrary: a b n) (simp_all add: iteration_fl_exact split: outcome.splits)

text \<open>The run on the two adjacent doubles \<open>1\<close> and \<open>next_after_one\<close>.\<close>

lemma round_binary64_0: "round_binary64 0 = 0"
  by (simp add: round_binary64_def)

lemma round_binary64_1: "round_binary64 1 = 1"
  by (subst round_binary64_normal[where e = 0]) (simp_all add: pow2_def round_half_even_def)

lemma round_binary64_tie: "round_binary64 (9007199254740993 / 4503599627370496) = 2"
  by (subst round_binary64_normal[where e = 1]) (simp_all add: pow2_def round_half_even_def)

lemma round_binary64_ulp: "round_binary64 (1 / 4503599627370496) = 1 / 4503599627370496"
  by (subst round_binary64_normal[where e = "- 52"]) (simp_all add: pow2_def round_half_even_def)

lemma round_binary64_minus_ulp:
  "round_binary64 (- (1 / 4503599627370496)) = - (1 / 4503599627370496)"
  by (subst round_binary64_normal[where e = "- 52"]) (simp_all add: pow2_def round_half_even_def)

lemma straddle64_1: "straddle64 1 = - (1 / 2 ^ 52)"
  by (simp add: straddle64_def next_after_one_def round_binary64_0 round_binary64_ulp
      round_binary64_minus_ulp)

lemma straddle64_next: "straddle64 next_after_one = 1 / 2 ^ 52"
  by (simp add: straddle64_def next_after_one_def round_binary64_0 round_binary64_ulp)

lemma midpoint_adjacent: "round_binary64 (round_binary64 (1 + next_after_one) / 2) = 1"
  by (simp add: next_after_one_def round_binary64_tie round_binary64_1)

lemma straddle_iteration:
  "iteration_fl round_binary64 straddle64 clk (1 / 2 ^ 60) True 0 rtl st 1 next_after_one n =
     (if rtl < round_binary64 (clk n - st)
      then Return TimedOut (1, round_binary64 (clk (n + 1) - st), - (1 / 2 ^ 52)) (n + 2)
      else Continue 1 next_after_one (n + 1))"
  by (simp add: iteration_fl_def midpoint_adjacent straddle64_1 update_bracket_def)

lemma one_less_next_after_one: "1 < next_after_one"
  by (simp add: next_after_one_def)

lemma straddle_loop_returns:
  assumes "bisect_loop_fl rnd f clk tol inc y rtl st a b n = Some res"
  shows "rnd = round_binary64 \<and> f = straddle64 \<and> tol = 1 / 2 ^ 60 \<and> inc = True \<and> y = 0 \<and>
      a = 1 \<and> b = next_after_one \<longrightarrow>
    (\<exists>e m k. res = (TimedOut, (1, e, - (1 / 2 ^ 52)), m) \<and> rtl < round_binary64 (clk k - st))"
proof (rule bisect_loop_fl.raw_induct[where P = "\<lambda>rnd f clk tol inc y rtl st a b n res.
      rnd = round_binary64 \<and> f = straddle64 \<and> tol = 1 / 2 ^ 60 \<and> inc = True \<and> y = 0 \<and>
      a = 1 \<and> b = next_after_one \<longrightarrow>
    (\<exists>e m k. res = (TimedOut, (1, e, - (1 / 2 ^ 52)), m) \<and> rtl < round_binary64 (clk k - st))",
    OF _ assms], goal_cases)
  case (1 loop rnd f clk tol inc y rtl st a b n res)
  show ?case
  proof (intro impI)
    assume h: "rnd = round_binary64 \<and> f = straddle64 \<and> tol = 1 / 2 ^ 60 \<and> inc = True \<and> y = 0 \<and>
      a = 1 \<and> b = next_after_one"
    then have eqs: "rnd = round_binary64" "f = straddle64" "tol = 1 / 2 ^ 60" "inc = True"
      "y = 0" "a = 1" "b = next_after_one" by blast+
    from 1(2) have body:
      "(if rtl < round_binary64 (clk n - st)
        then Some (TimedOut, (1, round_binary64 (clk (n + 1) - st), - (1 / 2 ^ 52)), n + 2)
        else loop round_binary64 straddle64 clk (1 / 2 ^ 60) True 0 rtl st 1 next_after_one (n + 1)) =
       Some res"
      unfolding eqs straddle_iteration by (simp split: if_splits)
    show "\<exists>e m k. res = (TimedOut, (1, e, - (1 / 2 ^ 52)), m) \<and> rtl < round_binary64 (clk k - st)"
    proof (cases "rtl < round_binary64 (clk n - st)")
      case True
      with body have "res = (TimedOut, (1, round_binary64 (clk (n + 1) - st), - (1 / 2 ^ 52)), n + 2)"
        by simp
      with True show ?thesis by blast
    next
      case False
      with body have "loop round_binary64 straddle64 clk (1 / 2 ^ 60) True 0 rtl st 1 next_after_one (n + 1) = Some res"
        by simp
      from 1(1)[OF this] show ?thesis by simp
    qed
  qed
qed

lemma straddle_flag: "check_strict_monotonicity straddle64 1 next_after_one = Inr True"
  by (simp add: check_strict_monotonicity_def straddle64_1 straddle64_next)

lemma straddle_never_converges:
  "find_root_fl_traced round_binary64 straddle64 1 next_after_one (1 / 2 ^ 60) flag 0 rtl clk n \<noteq>
     Some (Inr (Converged, r, m))"
proof
  assume "find_root_fl_traced round_binary64 straddle64 1 next_after_one (1 / 2 ^ 60) flag 0 rtl clk n =
     Some (Inr (Converged, r, m))"
  then have "bisect_loop_fl round_binary64 straddle64 clk (1 / 2 ^ 60) True 0 rtl (clk n)
      1 next_after_one (n + 1) = Some (Converged, r, m)"
    by (auto simp: find_root_fl_traced_def straddle_flag one_less_next_after_one)
  from straddle_loop_returns[OF this] show False by simp
qed



lemma straddle_iterations:
  "round_binary64 (clk n - st) \<le> rtl \<Longrightarrow>
   iterations_fl round_binary64 straddle64 clk (1 / 2 ^ 60) True 0 rtl st (Suc 0) 1 next_after_one n =
     Some (1, next_after_one, n + 1)"
  by (simp only: iterations_fl.simps straddle_iteration) simp

text \<open>The first pass on \<open>[0.1, 0.7]\<close>.\<close>

lemma shifted64_tenth: "shifted64 tenth64 = - (7205759403792793 / 2 ^ 55)"
  unfolding shifted64_def tenth64_def three_tenths64_def
  by (simp, subst round_binary64_normal[where e = "- 3"])
     (simp_all add: pow2_def round_half_even_def)

lemma shifted64_seven_tenths: "shifted64 seven_tenths64 = 7205759403792793 / 2 ^ 54"
  unfolding shifted64_def seven_tenths64_def three_tenths64_def
  by (simp, subst round_binary64_normal[where e = "- 2"])
     (simp_all add: pow2_def round_half_even_def)

lemma sum64: "round_binary64 (tenth64 + seven_tenths64) = 7205759403792793 / 2 ^ 53"
  unfolding tenth64_def seven_tenths64_def
  by (simp, subst round_binary64_normal[where e = "- 1"])
     (simp_all add: pow2_def round_half_even_def)

lemma half64n:
  "round_binary64 (7205759403792793 / 18014398509481984) =
     7205759403792793 / 18014398509481984"
  by (subst round_binary64_normal[where e = "- 2"]) (simp_all add: pow2_def round_half_even_def)

lemma shifted64_midn:
  "shifted64 (7205759403792793 / 18014398509481984) = 900719925474099 / 9007199254740992"
  unfolding shifted64_def three_tenths64_def
  by (simp, subst round_binary64_normal[where e = "- 4"])
     (simp_all add: pow2_def round_half_even_def)

subsection \<open>Runs on concrete inputs\<close>

lemmas run_simps = find_root_def find_root_traced_def check_strict_monotonicity_def
  bisect_loop.simps iteration_def effective_def update_bracket_def function_py_def
  ticking_clock_def frozen_clock_def fast_clock_def power3_eq_cube Let_def

lemma run_frozen_half:
  "find_root function_py (- 5) 5 (1 / 10) True 0 (1 / 2) frozen_clock 0 =
     Some (Inr ((15 / 8, 0, - (1 / 512)), 5))"
  by (simp add: run_simps)

lemma run_traced_ticking:
  "find_root_traced function_py (- 5) 5 (1 / 10) True 0 (3 / 2) ticking_clock 0 =
     Some (Inr (TimedOut, (5 / 2, 3, 1 / 8), 4))"
  by (simp add: run_simps)

lemma run_inverse_ticking:
  "find_inverse_value function_py 3 0 5 1 True ticking_clock 0 = Some (Inr ((55 / 16, 6), 7))"
  by (simp add: find_inverse_value_def run_simps)

lemma run_root_for_inverse:
  "find_root function_py 0 5 1 True 3 180 ticking_clock 1 =
     Some (Inr ((55 / 16, 4, 121 / 4096), 6))"
  by (simp add: run_simps)

lemma run_fast_limit_0:
  "find_root function_py (- 5) 5 (1 / 10) True 0 0 fast_clock 0 =
     Some (Inr ((0, 1 / 500, - 8), 3))"
  by (simp add: run_simps)

lemma run_fast_limit_60:
  "find_root function_py (- 5) 5 (1 / 10) True 0 60 fast_clock 0 =
     Some (Inr ((15 / 8, 1 / 250, - (1 / 512)), 5))"
  by (simp add: run_simps)

lemma run_traced_fast:
  "find_root_traced function_py (- 5) 5 (1 / 10) True 0 60 fast_clock 0 =
     Some (Inr (Converged, (15 / 8, 1 / 250, - (1 / 512)), 5))"
  by (simp add: run_simps)

lemma run_traced_frozen:
  "find_root_traced function_py (- 5) 5 (1 / 10) False 0 (1 / 2) frozen_clock 0 =
     Some (Inr (Converged, (15 / 8, 0, - (1 / 512)), 5))"
  by (simp add: run_simps)






lemma mono_ticking_clock: "mono ticking_clock"
  by (simp add: mono_def ticking_clock_def)

section \<open>The claims\<close>




text \<open>
  C2. In an iteration that has not converged, the bracket is updated from the monotonicity
  flag and the sign of the effective function at the midpoint \<open>c = (a + b) / 2\<close>:
  increasing and positive gives \<open>b = c\<close>, increasing and not positive gives \<open>a = c\<close>,
  decreasing and positive gives \<open>a = c\<close>, decreasing and not positive gives \<open>b = c\<close>; the
  loop goes on with that bracket unless the time limit is exceeded, in which case the
  function returns and the bracket is not read again. The flag with which the loop is
  entered is the one derived from \<open>f a < f b\<close>, inverted when \<open>y \<noteq> 0\<close>; the caller's flag
  is not used.
\<close>

theorem bracket_update_table:
  assumes "\<not> \<bar>effective f y ((a + b) / 2)\<bar> \<le> tol" and "\<not> clk n - st > rtl"
  shows "(inc \<and> effective f y ((a + b) / 2) > 0 \<longrightarrow>
            iteration f clk tol inc y rtl st a b n = Continue a ((a + b) / 2) (n + 1)) \<and>
         (inc \<and> effective f y ((a + b) / 2) \<le> 0 \<longrightarrow>
            iteration f clk tol inc y rtl st a b n = Continue ((a + b) / 2) b (n + 1)) \<and>
         (\<not> inc \<and> effective f y ((a + b) / 2) > 0 \<longrightarrow>
            iteration f clk tol inc y rtl st a b n = Continue ((a + b) / 2) b (n + 1)) \<and>
         (\<not> inc \<and> effective f y ((a + b) / 2) \<le> 0 \<longrightarrow>
            iteration f clk tol inc y rtl st a b n = Continue a ((a + b) / 2) (n + 1)) \<and>
         (lo < hi \<and> 0 < tol \<and> f lo \<noteq> f hi \<longrightarrow>
            find_root f lo hi tol flag y rtl clk ns =
              map_option (\<lambda>(ex, r, m). Inr (r, m))
                (bisect_loop f clk tol (if y \<noteq> 0 then \<not> f lo < f hi else f lo < f hi)
                   y rtl (clk ns) lo hi (ns + 1)))"
  using assms
  by (auto simp: iteration_def update_bracket_def Let_def find_root_def find_root_traced_def
      check_strict_monotonicity_def option.map_comp comp_def split_def
      intro!: arg_cong2[where f = map_option])

theorem bracket_update_table_witness:
  "\<not> \<bar>effective function_py 0 ((- 5 + 5) / 2)\<bar> \<le> 1 / 10 \<and>
   \<not> frozen_clock 1 - 0 > 60 \<and>
   iteration function_py frozen_clock (1 / 10) True 0 60 0 (- 5) 5 1 = Continue 0 5 2 \<and>
   find_root function_py (- 5) 5 (1 / 10) False 0 60 frozen_clock 0 =
     map_option (\<lambda>(ex, r, m). Inr (r, m))
       (bisect_loop function_py frozen_clock (1 / 10) True 0 60 0 (- 5) 5 1)"
  using bracket_update_table[where f = function_py and y = 0 and a = "- 5" and b = 5
      and tol = "1 / 10" and clk = frozen_clock and n = 1 and st = 0 and rtl = 60 and inc = True
      and lo = "- 5" and hi = 5 and flag = False and ns = 0]
  by (simp add: effective_def function_py_def frozen_clock_def)

text \<open>
  C3. \<^verbatim>\<open>find_root\<close> raises exactly when a precondition is violated. The checks run in
  the order of the source: an interval with \<open>a \<ge> b\<close> raises the interval error; otherwise
  a tolerance \<open>\<le> 0\<close> raises the tolerance error; otherwise equal endpoint values raise the
  monotonicity error; and when all three preconditions hold no error is raised. Both
  assertion failures are an \<^verbatim>\<open>AssertionError\<close>, so a tolerance \<open>\<le> 0\<close> always ends in
  one.
\<close>

theorem find_root_errors:
  "(\<not> a < b \<longrightarrow> find_root f a b tol inc y rtl clk n = Some (Inl InvalidIntervalError)) \<and>
   (a < b \<and> tol \<le> 0 \<longrightarrow>
      find_root f a b tol inc y rtl clk n = Some (Inl InvalidToleranceError)) \<and>
   (a < b \<and> 0 < tol \<and> f a = f b \<longrightarrow>
      find_root f a b tol inc y rtl clk n = Some (Inl (NonMonotonicError a b))) \<and>
   (a < b \<and> 0 < tol \<and> f a \<noteq> f b \<longrightarrow>
      (\<forall>e. find_root f a b tol inc y rtl clk n \<noteq> Some (Inl e))) \<and>
   (tol \<le> 0 \<longrightarrow> (\<exists>msg. find_root f a b tol inc y rtl clk n = Some (Inl (AssertionError msg)))) \<and>
   ((\<exists>e. find_root f a b tol inc y rtl clk n = Some (Inl e)) \<longleftrightarrow>
      \<not> a < b \<or> tol \<le> 0 \<or> f a = f b)"
  by (cases "bisect_loop f clk tol (loop_flag f a b y) y rtl (clk n) a b (n + 1)")
     (auto simp: find_root_def find_root_traced_def check_strict_monotonicity_def Let_def
       loop_flag_def InvalidIntervalError_def InvalidToleranceError_def)

theorem find_root_errors_witness:
  "find_root function_py 5 5 (1 / 10) True 0 60 frozen_clock 0 = Some (Inl InvalidIntervalError) \<and>
   find_root function_py (- 5) 5 0 True 0 60 frozen_clock 0 = Some (Inl InvalidToleranceError) \<and>
   find_root (\<lambda>x. x * x) (- 5) 5 (1 / 10) True 0 60 frozen_clock 0 =
     Some (Inl (NonMonotonicError (- 5) 5)) \<and>
   find_root function_py (- 5) 5 (1 / 10) True 0 60 frozen_clock 0 \<noteq> Some (Inl InvalidIntervalError)"
  using find_root_errors[where a = 5 and b = 5 and f = function_py and tol = "1 / 10"
      and inc = True and y = 0 and rtl = 60 and clk = frozen_clock and n = 0]
    find_root_errors[where a = "- 5" and b = 5 and f = function_py and tol = 0
      and inc = True and y = 0 and rtl = 60 and clk = frozen_clock and n = 0]
    find_root_errors[where a = "- 5" and b = 5 and f = "\<lambda>x. x * x" and tol = "1 / 10"
      and inc = True and y = 0 and rtl = 60 and clk = frozen_clock and n = 0]
    find_root_errors[where a = "- 5" and b = 5 and f = function_py and tol = "1 / 10"
      and inc = True and y = 0 and rtl = 60 and clk = frozen_clock and n = 0]
  by (simp add: function_py_def)

text \<open>
  C4. When, after \<open>k\<close> iterations that went on, an iteration does not converge and the
  clock reading of its time test exceeds the limit, \<^verbatim>\<open>find_root\<close> raises nothing: it
  returns the midpoint of the current bracket, an elapsed time that is at least the limit
  (the clock never runs backwards), and the value of the effective function at that
  midpoint, which is not within the tolerance. The limit is arbitrary, 0 included.
\<close>

theorem timeout_returns_midpoint:
  assumes "a < b" and "0 < tol" and "f a \<noteq> f b" and "mono clk"
    and "iterations f clk tol (loop_flag f a b y) y rtl (clk n) k a b (n + 1) = Some (ak, bk, nk)"
    and "\<not> \<bar>effective f y ((ak + bk) / 2)\<bar> \<le> tol"
    and "rtl < clk nk - clk n"
  shows "find_root f a b tol inc y rtl clk n =
           Some (Inr (((ak + bk) / 2, clk (nk + 1) - clk n, effective f y ((ak + bk) / 2)), nk + 2)) \<and>
         rtl \<le> clk (nk + 1) - clk n"
proof -
  have "iteration f clk tol (loop_flag f a b y) y rtl (clk n) ak bk nk =
      Return TimedOut ((ak + bk) / 2, clk (nk + 1) - clk n, effective f y ((ak + bk) / 2)) (nk + 2)"
    using assms(6,7) by (cases rule: iteration_cases) auto
  then have "bisect_loop f clk tol (loop_flag f a b y) y rtl (clk n) ak bk nk =
      Some (TimedOut, ((ak + bk) / 2, clk (nk + 1) - clk n, effective f y ((ak + bk) / 2)), nk + 2)"
    by (subst bisect_loop.simps) simp
  with iterations_loop[OF assms(5)]
  have "bisect_loop f clk tol (loop_flag f a b y) y rtl (clk n) a b (n + 1) =
      Some (TimedOut, ((ak + bk) / 2, clk (nk + 1) - clk n, effective f y ((ak + bk) / 2)), nk + 2)"
    by simp
  then have "find_root f a b tol inc y rtl clk n =
      Some (Inr (((ak + bk) / 2, clk (nk + 1) - clk n, effective f y ((ak + bk) / 2)), nk + 2))"
    using assms(1-3) by (simp add: find_root_def find_root_traced_loop)
  moreover from \<open>mono clk\<close> have "clk nk \<le> clk (nk + 1)" by (simp add: monoD)
  with assms(7) have "rtl \<le> clk (nk + 1) - clk n" by simp
  ultimately show ?thesis by simp
qed

theorem timeout_returns_midpoint_witness:
  "- 5 < (5::real) \<and> (0::real) < 1 / 10 \<and> function_py (- 5) \<noteq> function_py 5 \<and>
   mono ticking_clock \<and>
   iterations function_py ticking_clock (1 / 10) (loop_flag function_py (- 5) 5 0) 0 0
     (ticking_clock 0) 0 (- 5) 5 (0 + 1) = Some (- 5, 5, 1) \<and>
   \<not> \<bar>effective function_py 0 ((- 5 + 5) / 2)\<bar> \<le> 1 / 10 \<and>
   0 < ticking_clock 1 - ticking_clock 0 \<and>
   find_root function_py (- 5) 5 (1 / 10) True 0 0 ticking_clock 0 = Some (Inr ((0, 2, - 8), 3)) \<and>
   (0::real) \<le> 2"
  using timeout_returns_midpoint[where a = "- 5" and b = 5 and tol = "1 / 10"
      and f = function_py and clk = ticking_clock and y = 0 and rtl = 0 and n = 0 and k = 0
      and ak = "- 5" and bk = 5 and nk = 1 and inc = True] mono_ticking_clock
  by (simp add: effective_def function_py_def ticking_clock_def)

text \<open>
  C5. When \<open>a \<le> y \<le> b\<close>, \<^verbatim>\<open>find_inverse_value\<close> returns a pair whose first component is
  the estimate returned by \<^verbatim>\<open>find_root\<close> called with the same \<open>f\<close>, \<open>a\<close>, \<open>b\<close>, tolerance
  and \<open>y\<close> and with a time limit of 180 seconds, three times the default of 60; the
  residual returned by \<^verbatim>\<open>find_root\<close> does not appear in the result. An error of
  \<^verbatim>\<open>find_root\<close> is passed on, and so is a run that never returns.
\<close>

theorem find_inverse_value_delegates:
  assumes "a \<le> y" and "y \<le> b"
  shows "(find_root f a b tol inc y (3 * default_run_time_limit) clk (n + 1) =
            Some (Inr ((x, e, v), m)) \<longrightarrow>
          find_inverse_value f y a b tol inc clk n = Some (Inr ((x, clk m - clk n), m + 1))) \<and>
         (find_root f a b tol inc y (3 * default_run_time_limit) clk (n + 1) = Some (Inl err) \<longrightarrow>
          find_inverse_value f y a b tol inc clk n = Some (Inl err)) \<and>
         (find_root f a b tol inc y (3 * default_run_time_limit) clk (n + 1) = None \<longrightarrow>
          find_inverse_value f y a b tol inc clk n = None) \<and>
         3 * default_run_time_limit = 180"
  using assms by (auto simp: find_inverse_value_def default_run_time_limit_def)

theorem find_inverse_value_delegates_witness:
  "(0::real) \<le> 3 \<and> (3::real) \<le> 5 \<and>
   find_root function_py 0 5 1 True 3 (3 * default_run_time_limit) ticking_clock (0 + 1) =
     Some (Inr ((55 / 16, 4, 121 / 4096), 6)) \<and>
   find_inverse_value function_py 3 0 5 1 True ticking_clock 0 =
     Some (Inr ((55 / 16, ticking_clock 6 - ticking_clock 0), 6 + 1))"
  using find_inverse_value_delegates[where a = 0 and y = 3 and b = 5 and f = function_py
      and tol = 1 and inc = True and clk = ticking_clock and n = 0 and x = "55 / 16" and e = 4
      and v = "121 / 4096" and m = 6] run_root_for_inverse
  by (simp add: default_run_time_limit_def)

text \<open>
  C6. \<^verbatim>\<open>find_inverse_value\<close> raises the out-of-range error if and only if \<open>y < a\<close> or
  \<open>y > b\<close>: the target is compared with the bounds \<open>a\<close> and \<open>b\<close> of the domain, and no
  other path of the wrapper or of the solver raises this error.
\<close>

theorem out_of_range_iff:
  "find_inverse_value f y a b tol inc clk n = Some (Inl OutOfRangeError) \<longleftrightarrow> (y < a \<or> b < y)"
proof (cases "a \<le> y \<and> y \<le> b")
  case True
  then have "find_inverse_value f y a b tol inc clk n \<noteq> Some (Inl OutOfRangeError)"
    using find_root_not_OutOfRange[of f a b tol inc y 180 clk "n + 1"]
    by (auto simp: find_inverse_value_def split: option.splits sum.splits)
  with True show ?thesis by auto
next
  case False
  then show ?thesis by (auto simp: find_inverse_value_def)
qed

theorem out_of_range_iff_witness:
  "find_inverse_value function_py 6 0 5 1 True ticking_clock 0 = Some (Inl OutOfRangeError) \<and>
   find_inverse_value function_py 3 0 5 1 True ticking_clock 0 \<noteq> Some (Inl OutOfRangeError)"
  using out_of_range_iff[where f = function_py and y = 6 and a = 0 and b = 5 and tol = 1
      and inc = True and clk = ticking_clock and n = 0]
    out_of_range_iff[where f = function_py and y = 3 and a = 0 and b = 5 and tol = 1
      and inc = True and clk = ticking_clock and n = 0]
  by simp

text \<open>
  C7, as stated: the estimate and the residual depend on \<open>f\<close>, \<open>a\<close>, \<open>b\<close>, the tolerance and
  \<open>y\<close> alone. This fails: with the same five inputs, the same flag and the same clock, a
  time limit of 0 returns the first midpoint through the timeout branch and a time limit of
  60 returns the converged estimate.
\<close>

theorem estimate_depends_on_time_limit:
  "find_root function_py (- 5) 5 (1 / 10) True 0 0 fast_clock 0 =
     Some (Inr ((0, 1 / 500, - 8), 3)) \<and>
   find_root function_py (- 5) 5 (1 / 10) True 0 60 fast_clock 0 =
     Some (Inr ((15 / 8, 1 / 250, - (1 / 512)), 5)) \<and>
   (0::real) \<noteq> 15 / 8"
  using run_fast_limit_0 run_fast_limit_60 by simp

text \<open>
  C7, amended: the result of \<^verbatim>\<open>find_root\<close> is a function of \<open>f\<close>, \<open>a\<close>, \<open>b\<close>, the tolerance,
  \<open>y\<close>, the time limit and the clock readings, and never of the caller's
  \<^verbatim>\<open>is_increasing\<close>; and two calls with the same \<open>f\<close>, \<open>a\<close>, \<open>b\<close>, tolerance and \<open>y\<close>
  that both return through the convergence branch return the same estimate and the same
  residual, whatever their flags, time limits and clocks.
\<close>

theorem flag_ignored_convergence_determined:
  "find_root f a b tol inc y rtl clk n = find_root f a b tol inc' y rtl clk n \<and>
   (find_root_traced f a b tol inc y rtl clk n = Some (Inr (Converged, (x, e, v), m)) \<longrightarrow>
    find_root_traced f a b tol inc' y rtl' clk' n' = Some (Inr (Converged, (x', e', v'), m')) \<longrightarrow>
    x = x' \<and> v = v')"
proof (rule conjI; (intro impI)?)
  show "find_root f a b tol inc y rtl clk n = find_root f a b tol inc' y rtl clk n"
    by (simp add: find_root_def find_root_traced_def)
next
  assume "find_root_traced f a b tol inc y rtl clk n = Some (Inr (Converged, (x, e, v), m))"
    and "find_root_traced f a b tol inc' y rtl' clk' n' = Some (Inr (Converged, (x', e', v'), m'))"
  from find_root_traced_Inr[OF this(1)] find_root_traced_Inr[OF this(2)]
  have "bisect_loop f clk tol (loop_flag f a b y) y rtl (clk n) a b (n + 1) =
      Some (Converged, (x, e, v), m)"
    and "bisect_loop f clk' tol (loop_flag f a b y) y rtl' (clk' n') a b (n' + 1) =
      Some (Converged, (x', e', v'), m')"
    by simp_all
  with converged_estimate_unique_aux[OF this(1)] show "x = x' \<and> v = v'" by blast
qed

theorem flag_ignored_convergence_determined_witness:
  "find_root function_py (- 5) 5 (1 / 10) True 0 60 fast_clock 0 =
     find_root function_py (- 5) 5 (1 / 10) False 0 60 fast_clock 0 \<and>
   find_root_traced function_py (- 5) 5 (1 / 10) True 0 60 fast_clock 0 =
     Some (Inr (Converged, (15 / 8, 1 / 250, - (1 / 512)), 5)) \<and>
   find_root_traced function_py (- 5) 5 (1 / 10) False 0 (1 / 2) frozen_clock 0 =
     Some (Inr (Converged, (15 / 8, 0, - (1 / 512)), 5)) \<and>
   (15 / 8 :: real) = 15 / 8 \<and> (- (1 / 512) :: real) = - (1 / 512)"
  using flag_ignored_convergence_determined[where f = function_py and a = "- 5" and b = 5
      and tol = "1 / 10" and inc = True and inc' = False and y = 0 and rtl = 60
      and clk = fast_clock and n = 0 and x = "15 / 8" and e = "1 / 250" and v = "- (1 / 512)"
      and m = 5 and rtl' = "1 / 2" and clk' = frozen_clock and n' = 0 and x' = "15 / 8"
      and e' = 0 and v' = "- (1 / 512)" and m' = 5]
    run_traced_fast run_traced_frozen
  by simp

text \<open>
  C8, as stated: after \<open>k\<close> iterations that neither converged nor ran out of time, the
  width of the bracket is exactly \<open>(b0 - a0) / 2 ^ k\<close>, and each iteration replaces exactly
  one endpoint by the midpoint. In binary64 the midpoint of line 102 is rounded. On
  \<open>[0.1, 0.7]\<close> with \<^verbatim>\<open>lambda x: x - 0.3\<close> the first midpoint is \<open>7205759403792793 / 2 ^ 54\<close>,
  not the exact \<open>28823037615171173 / 2 ^ 56\<close>, and the new width is not half of the old one.
  On the adjacent doubles \<open>1\<close> and \<open>next_after_one\<close> the midpoint is the left endpoint
  itself: the pass leaves both endpoints and the width as they were.
\<close>

theorem rounded_midpoint_breaks_halving:
  "(tenth64 < seven_tenths64 \<and>
    loop_flag shifted64 tenth64 seven_tenths64 0 = True \<and>
    iterations_fl round_binary64 shifted64 ticking_clock (1 / 2 ^ 20) True 0 60 0
      1 tenth64 seven_tenths64 1 = Some (tenth64, 7205759403792793 / 2 ^ 54, 2) \<and>
    7205759403792793 / 2 ^ 54 - tenth64 \<noteq> (seven_tenths64 - tenth64) / 2 ^ 1) \<and>
   (1 < next_after_one \<and>
    loop_flag straddle64 1 next_after_one 0 = True \<and>
    iterations_fl round_binary64 straddle64 ticking_clock (1 / 2 ^ 60) True 0 60 0
      1 1 next_after_one 1 = Some (1, next_after_one, 2) \<and>
    next_after_one - 1 \<noteq> (next_after_one - 1) / 2 ^ 1)"
proof (intro conjI)
  show "iterations_fl round_binary64 shifted64 ticking_clock (1 / 2 ^ 20) True 0 60 0
      1 tenth64 seven_tenths64 1 = Some (tenth64, 7205759403792793 / 2 ^ 54, 2)"
    by (simp add: iteration_fl_def sum64 half64n shifted64_midn
        update_bracket_def ticking_clock_def round_binary64_1 Let_def)
  show "iterations_fl round_binary64 straddle64 ticking_clock (1 / 2 ^ 60) True 0 60 0
      1 1 next_after_one 1 = Some (1, next_after_one, 2)"
    using straddle_iterations[of ticking_clock 1 0 60]
    by (simp add: ticking_clock_def round_binary64_1)
  show "loop_flag shifted64 tenth64 seven_tenths64 0 = True"
    by (simp add: loop_flag_def shifted64_tenth shifted64_seven_tenths)
  show "loop_flag straddle64 1 next_after_one 0 = True"
    by (simp add: loop_flag_def straddle64_1 straddle64_next)
qed (simp_all add: tenth64_def seven_tenths64_def next_after_one_def)

text \<open>
  C8, amended: over exact arithmetic, after \<open>k\<close> iterations that neither converged nor ran
  out of time, the width of the bracket is exactly \<open>(b0 - a0) / 2 ^ k\<close>, and the next such
  iteration replaces exactly one endpoint by the midpoint.
\<close>

theorem interval_halving:
  assumes "iterations f clk tol inc y rtl st k lo hi ns = Some (a, b, n)"
  shows "b - a = (hi - lo) / 2 ^ k \<and>
    (lo < hi \<longrightarrow>
      (\<forall>a' b' n'. iterations f clk tol inc y rtl st (Suc k) lo hi ns = Some (a', b', n') \<longrightarrow>
         (a' = (a + b) / 2 \<and> a' \<noteq> a \<and> b' = b) \<or> (a' = a \<and> b' = (a + b) / 2 \<and> b' \<noteq> b)))"
proof (intro conjI impI allI)
  show "b - a = (hi - lo) / 2 ^ k" using assms by (rule iterations_width)
next
  fix a' b' n'
  assume lt: "lo < hi"
    and nxt: "iterations f clk tol inc y rtl st (Suc k) lo hi ns = Some (a', b', n')"
  from iterations_bracket[OF assms lt] have ab: "a < b" by simp
  from nxt assms have "iterations f clk tol inc y rtl st (Suc 0) a b n = Some (a', b', n')"
    by (simp add: iterations_Suc_last del: iterations.simps)
  then have "iteration f clk tol inc y rtl st a b n = Continue a' b' n'"
    by (auto split: outcome.splits)
  from iteration_Continue(2)[OF this] ab
  show "(a' = (a + b) / 2 \<and> a' \<noteq> a \<and> b' = b) \<or> (a' = a \<and> b' = (a + b) / 2 \<and> b' \<noteq> b)"
    by auto
qed

theorem interval_halving_witness:
  "iterations function_py frozen_clock (1 / 10) True 0 60 0 2 (- 5) 5 1 = Some (0, 5 / 2, 3) \<and>
   5 / 2 - 0 = (5 - (- 5)) / (2::real) ^ 2 \<and>
   iterations function_py frozen_clock (1 / 10) True 0 60 0 (Suc 2) (- 5) 5 1 = Some (5 / 4, 5 / 2, 4) \<and>
   (5 / 4 = (0 + 5 / 2) / (2::real) \<and> 5 / 4 \<noteq> (0::real))"
  using interval_halving[where f = function_py and clk = frozen_clock and tol = "1 / 10"
      and inc = True and y = 0 and rtl = 60 and st = 0 and k = 2 and lo = "- 5" and hi = 5
      and ns = 1 and a = 0 and b = "5 / 2" and n = 3]
  by (simp add: two iteration_def effective_def update_bracket_def function_py_def
      frozen_clock_def power3_eq_cube)

text \<open>
  C9. A result returned through the timeout branch has a residual of absolute value greater
  than the tolerance: the third component of the result is within the tolerance if and only
  if the call returned through the convergence branch.
\<close>

theorem exit_told_by_residual:
  assumes "find_root_traced f a b tol inc y rtl clk n = Some (Inr (ex, (x, e, v), m))"
  shows "find_root f a b tol inc y rtl clk n = Some (Inr ((x, e, v), m)) \<and>
         (ex = TimedOut \<longrightarrow> \<bar>v\<bar> > tol) \<and> (\<bar>v\<bar> \<le> tol \<longleftrightarrow> ex = Converged)"
proof -
  from find_root_traced_Inr[OF assms]
  have "bisect_loop f clk tol (loop_flag f a b y) y rtl (clk n) a b (n + 1) = Some (ex, (x, e, v), m)"
    by simp
  from loop_iterations[OF this] obtain k a' b' n' where
    "iteration f clk tol (loop_flag f a b y) y rtl (clk n) a' b' n' = Return ex (x, e, v) m"
    by blast
  from iteration_Return(3)[OF this] have "\<bar>v\<bar> \<le> tol \<longleftrightarrow> ex = Converged" .
  moreover have "find_root f a b tol inc y rtl clk n = Some (Inr ((x, e, v), m))"
    using assms by (simp add: find_root_def)
  ultimately show ?thesis by (cases ex) auto
qed

theorem exit_told_by_residual_witness:
  "find_root_traced function_py (- 5) 5 (1 / 10) True 0 (3 / 2) ticking_clock 0 =
     Some (Inr (TimedOut, (5 / 2, 3, 1 / 8), 4)) \<and>
   find_root function_py (- 5) 5 (1 / 10) True 0 (3 / 2) ticking_clock 0 =
     Some (Inr ((5 / 2, 3, 1 / 8), 4)) \<and> \<bar>1 / 8 :: real\<bar> > 1 / 10"
  using exit_told_by_residual[where f = function_py and a = "- 5" and b = 5 and tol = "1 / 10"
      and inc = True and y = 0 and rtl = "3 / 2" and clk = ticking_clock and n = 0
      and ex = TimedOut and x = "5 / 2" and e = 3 and v = "1 / 8" and m = 4]
    run_traced_ticking
  by simp

text \<open>
  C10. Every estimate returned by \<^verbatim>\<open>find_root\<close>, through either exit, is the midpoint of a
  bracket inside the original interval and lies strictly between the original endpoints;
  so does the estimate returned by \<^verbatim>\<open>find_inverse_value\<close>.
\<close>

theorem estimate_strictly_inside:
  "(find_root f a b tol inc y rtl clk n = Some (Inr ((x, e, v), m)) \<longrightarrow>
      a < x \<and> x < b \<and> (\<exists>a' b'. a \<le> a' \<and> a' < b' \<and> b' \<le> b \<and> x = (a' + b') / 2)) \<and>
   (find_inverse_value f y a b tol inc clk n = Some (Inr ((x', e'), m')) \<longrightarrow> a < x' \<and> x' < b)"
proof -
  have root: "a < x \<and> x < b \<and> (\<exists>a' b'. a \<le> a' \<and> a' < b' \<and> b' \<le> b \<and> x = (a' + b') / 2)"
    if "find_root f a b tol inc y rtl clk n = Some (Inr ((x, e, v), m))"
    for x e v m rtl n
  proof -
    from that obtain ex where
      "find_root_traced f a b tol inc y rtl clk n = Some (Inr (ex, (x, e, v), m))"
      by (auto simp: find_root_Inr)
    from find_root_traced_Inr[OF this]
    have ab: "a < b"
      and "bisect_loop f clk tol (loop_flag f a b y) y rtl (clk n) a b (n + 1) = Some (ex, (x, e, v), m)"
      by simp_all
    from loop_iterations[OF this(2)] obtain k a' b' n' where
      its: "iterations f clk tol (loop_flag f a b y) y rtl (clk n) k a b (n + 1) = Some (a', b', n')"
      and ret: "iteration f clk tol (loop_flag f a b y) y rtl (clk n) a' b' n' = Return ex (x, e, v) m"
      by blast
    from iterations_bracket[OF its ab] have br: "a \<le> a'" "a' < b'" "b' \<le> b" by simp_all
    from iteration_Return(1)[OF ret] have x: "x = (a' + b') / 2" .
    from br x have "a < x" "x < b" by (auto simp: field_simps)
    with br x show ?thesis by blast
  qed
  have "a < x' \<and> x' < b"
    if inv: "find_inverse_value f y a b tol inc clk n = Some (Inr ((x', e'), m'))"
  proof -
    from inv obtain e v m where
      "find_root f a b tol inc y 180 clk (n + 1) = Some (Inr ((x', e, v), m))"
      by (auto simp: find_inverse_value_def Let_def split: if_splits option.splits sum.splits)
    from root[OF this] show ?thesis by simp
  qed
  with root show ?thesis by blast
qed

theorem estimate_strictly_inside_witness:
  "find_root function_py (- 5) 5 (1 / 10) True 0 (1 / 2) frozen_clock 0 =
     Some (Inr ((15 / 8, 0, - (1 / 512)), 5)) \<and> - 5 < (15 / 8 :: real) \<and> (15 / 8 :: real) < 5 \<and>
   find_inverse_value function_py 3 0 5 1 True ticking_clock 0 = Some (Inr ((55 / 16, 6), 7)) \<and>
   0 < (55 / 16 :: real) \<and> (55 / 16 :: real) < 5"
  using estimate_strictly_inside[where f = function_py and a = "- 5" and b = 5
      and tol = "1 / 10" and inc = True and y = 0 and rtl = "1 / 2" and clk = frozen_clock
      and n = 0 and x = "15 / 8" and e = 0 and v = "- (1 / 512)" and m = 5]
    estimate_strictly_inside[where f = function_py and a = 0 and b = 5
      and tol = 1 and inc = True and y = 3 and clk = ticking_clock
      and n = 0 and x' = "55 / 16" and e' = 6 and m' = 7]
    run_frozen_half run_inverse_ticking
  by simp

end
